theory Spec2Isabelle
  imports Complex_Main
begin

section \<open>Numbers\<close>

text \<open>
  The script computes on IEEE doubles. The model takes a finite double to be the real
  number it denotes (rounding is not modelled) and keeps the three values that are not
  real numbers apart, since the return construction can produce them: the two infinities
  and NaN.
\<close>

datatype fl = Fin real | PInf | NInf | NaN

text \<open>Division of two finite doubles as numpy does it: no exception, a zero divisor
  gives an infinity of the sign of the dividend, and \<open>0 / 0\<close> gives NaN.\<close>

definition fdiv :: "real \<Rightarrow> real \<Rightarrow> fl" where
  "fdiv a b =
     (if b \<noteq> 0 then Fin (a / b)
      else if 0 < a then PInf
      else if a < 0 then NInf
      else NaN)"

fun fsub_one :: "fl \<Rightarrow> fl" where
  "fsub_one (Fin x) = Fin (x - 1)"
| "fsub_one PInf = PInf"
| "fsub_one NInf = NInf"
| "fsub_one NaN = NaN"

section \<open>Daily returns: \<open>prices.pct_change().dropna()\<close>\<close>

text \<open>\<open>pct_change\<close> divides every price by the one before it and subtracts one; the
  first row has no predecessor and is NaN.\<close>

fun pct_pairs :: "real \<Rightarrow> real list \<Rightarrow> fl list" where
  "pct_pairs prev [] = []"
| "pct_pairs prev (cur # rest) = fsub_one (fdiv cur prev) # pct_pairs cur rest"

fun pct_change :: "real list \<Rightarrow> fl list" where
  "pct_change [] = []"
| "pct_change (p # ps) = NaN # pct_pairs p ps"

definition dropna :: "fl list \<Rightarrow> fl list" where
  "dropna xs = filter (\<lambda>x. x \<noteq> NaN) xs"

definition build_returns :: "real list \<Rightarrow> fl list" where
  "build_returns prices = dropna (pct_change prices)"

section \<open>The VaR computation\<close>

datatype var_method = Historical | VarianceCovariance

text \<open>The two ways the block ends without a result: the message
  "Not enough data points to compute VaR", and the \<open>ValueError\<close> that
  \<open>np.percentile\<close> raises for a percentile outside \<open>[0, 100]\<close>, which the
  enclosing \<open>except\<close> reports.\<close>

datatype error = InsufficientData | ValueError

subsection \<open>numpy: mean, std, percentile\<close>

definition mean :: "real list \<Rightarrow> real" where
  "mean xs = sum_list xs / real (length xs)"

text \<open>\<open>ndarray.std()\<close> with its default \<open>ddof = 0\<close>:
  \<open>sqrt(mean(abs(x - x.mean()) ** 2))\<close>.\<close>

definition std :: "real list \<Rightarrow> real" where
  "std xs = sqrt (mean (map (\<lambda>x. \<bar>x - mean xs\<bar> ^ 2) xs))"

text \<open>numpy's \<open>_lerp(a, b, t)\<close>: \<open>a + (b - a) * t\<close>, replaced by
  \<open>b - (b - a) * (1 - t)\<close> where \<open>t \<ge> 0.5\<close>.\<close>

definition lerp :: "real \<Rightarrow> real \<Rightarrow> real \<Rightarrow> real" where
  "lerp a b t = (if 1 / 2 \<le> t then b - (b - a) * (1 - t) else a + (b - a) * t)"

text \<open>\<open>np.percentile(a, q)\<close> with its default method \<open>linear\<close>: \<open>q\<close> must lie in
  \<open>[0, 100]\<close>; the array is sorted, the virtual index is \<open>(n - 1) * (q / 100)\<close>, the
  two neighbouring indices are clipped to the array and the result interpolates between
  the two entries by the fractional part.\<close>

definition percentile :: "real list \<Rightarrow> real \<Rightarrow> error + real" where
  "percentile a q =
     (if \<not> (0 \<le> q \<and> q \<le> 100) then Inl ValueError
      else
        let arr = sort a;
            n = length arr;
            virtual_index = real (n - 1) * (q / 100);
            previous_index = nat \<lfloor>virtual_index\<rfloor>;
            next_index = min (previous_index + 1) (n - 1);
            gamma = virtual_index - real previous_index
        in Inr (lerp (arr ! min previous_index (n - 1)) (arr ! next_index) gamma))"

subsection \<open>scipy: \<open>norm.ppf\<close>\<close>

text \<open>The standard normal distribution function, as its power series around zero:
  \<open>1/2 + (1 / sqrt (2 pi)) * (\<Sum>k. (-1)^k x^(2k+1) / ((2k+1) 2^k k!))\<close>.\<close>

definition cdf_coeff :: "nat \<Rightarrow> real" where
  "cdf_coeff k = (- 1) ^ k / (real (2 * k + 1) * 2 ^ k * fact k)"

definition norm_cdf :: "real \<Rightarrow> real" where
  "norm_cdf x = 1 / 2 + x * (\<Sum>k. cdf_coeff k * (x\<^sup>2) ^ k) / sqrt (2 * pi)"

text \<open>\<open>norm.ppf(p)\<close> for \<open>0 < p < 1\<close> is the point where the distribution function
  takes the value \<open>p\<close>; scipy computes it to double precision, the model takes the
  exact point. (At 0 and 1 scipy returns an infinity and outside \<open>[0, 1]\<close> NaN; the
  model gives \<open>norm_ppf\<close> no meaning there.)\<close>

definition norm_ppf :: "real \<Rightarrow> real" where
  "norm_ppf p = (THE z. norm_cdf z = p)"

subsection \<open>The block of the script\<close>

record var_result =
  var_percent :: real
  var_dollar :: real
  curve :: "(real \<times> real) option"

text \<open>Lines 56 to 62: the selected method gives \<open>var_percent\<close>; only the
  Variance-Covariance branch binds \<open>mean\<close> and \<open>std\<close>, which the plot uses later.\<close>

definition compute_var_percent ::
  "var_method \<Rightarrow> real \<Rightarrow> real list \<Rightarrow> error + real \<times> (real \<times> real) option" where
  "compute_var_percent m confidence_level returns_1d =
     (case m of
        Historical \<Rightarrow>
          (case percentile returns_1d ((1 - confidence_level) * 100) of
             Inl e \<Rightarrow> Inl e
           | Inr v \<Rightarrow> Inr (v, None))
      | VarianceCovariance \<Rightarrow>
          (let mean_v = mean returns_1d;
               std_v = std returns_1d;
               z_score = norm_ppf (1 - confidence_level)
           in Inr (mean_v + z_score * std_v, Some (mean_v, std_v))))"

text \<open>Lines 50 to 64, on a return series of finite values.\<close>

definition estimate ::
  "var_method \<Rightarrow> real \<Rightarrow> real \<Rightarrow> real list \<Rightarrow> error + var_result" where
  "estimate m confidence_level investment returns =
     (if length returns < 10 then Inl InsufficientData
      else
        (case compute_var_percent m confidence_level returns of
           Inl e \<Rightarrow> Inl e
         | Inr (vp, cv) \<Rightarrow>
             Inr \<lparr>var_percent = vp, var_dollar = vp * investment, curve = cv\<rparr>))"

text \<open>Line 69 shows the dollar figure negated.\<close>

definition displayed_dollar :: "var_result \<Rightarrow> real" where
  "displayed_dollar r = - var_dollar r"

text \<open>The sidebar: the confidence slider runs over the integers 90 to 99 and is divided
  by 100, the investment slider over 1000 to 1000000 in steps of 1000.\<close>

definition slider_confidence :: "int \<Rightarrow> real option" where
  "slider_confidence k = (if 90 \<le> k \<and> k \<le> 99 then Some (real_of_int k / 100) else None)"

definition slider_investment :: "int \<Rightarrow> real option" where
  "slider_investment k =
     (if 1000 \<le> k \<and> k \<le> 1000000 \<and> k mod 1000 = 0 then Some (real_of_int k) else None)"

subsection \<open>Double precision: \<open>mean\<close> and \<open>std\<close> as numpy computes them\<close>

text \<open>The definitions above compute on exact reals. The ones below round as binary64
  arithmetic does: every operation returns the double nearest to the exact result, ties
  to the even mantissa. A double is taken to be the real number it denotes; the rounding
  is that of the normal range (a 53-bit mantissa at the binade of the value), so overflow
  and gradual underflow are not modelled.\<close>

definition pow2 :: "int \<Rightarrow> real" where
  "pow2 i = (if 0 \<le> i then 2 ^ nat i else 1 / 2 ^ nat (- i))"

definition round_even :: "real \<Rightarrow> int" where
  "round_even y =
     (let f = \<lfloor>y\<rfloor>; r = y - of_int f
      in if r < 1 / 2 then f else if 1 / 2 < r then f + 1 else if even f then f else f + 1)"

definition rnd :: "real \<Rightarrow> real" where
  "rnd x =
     (if x = 0 then 0
      else let u = pow2 (\<lfloor>log 2 \<bar>x\<bar>\<rfloor> - 52) in of_int (round_even (x / u)) * u)"

text \<open>The arithmetic operations: the exact result, rounded.\<close>

definition add_f64 :: "real \<Rightarrow> real \<Rightarrow> real" where
  "add_f64 a b = rnd (a + b)"

definition sub_f64 :: "real \<Rightarrow> real \<Rightarrow> real" where
  "sub_f64 a b = rnd (a - b)"

definition mul_f64 :: "real \<Rightarrow> real \<Rightarrow> real" where
  "mul_f64 a b = rnd (a * b)"

definition div_f64 :: "real \<Rightarrow> real \<Rightarrow> real" where
  "div_f64 a b = rnd (a / b)"

definition sqrt_f64 :: "real \<Rightarrow> real" where
  "sqrt_f64 a = rnd (sqrt a)"

text \<open>\<open>add.reduce\<close> on a contiguous array of doubles is numpy's pairwise summation:
  fewer than 8 elements are added one after the other; up to 128 elements are added into
  eight accumulators, block of eight by block of eight, the accumulators are added as
  \<open>((r0 + r1) + (r2 + r3)) + ((r4 + r5) + (r6 + r7))\<close> and the remaining elements
  one after the other; a longer array is split at half its length, rounded down to a
  multiple of eight, and the sums of the two parts are added. (The reduction then adds
  this sum to its initial value zero, which changes nothing.)\<close>

fun seq_add :: "real \<Rightarrow> real list \<Rightarrow> real" where
  "seq_add res [] = res"
| "seq_add res (x # xs) = seq_add (add_f64 res x) xs"

function acc_blocks :: "real list \<Rightarrow> real list \<Rightarrow> real list" where
  "acc_blocks r a =
     (if length a < 8 then r
      else acc_blocks (map2 add_f64 r (take 8 a)) (drop 8 a))"
  by pat_completeness auto
termination
  by (relation "measure (\<lambda>(r, a). length a)") auto

declare acc_blocks.simps [simp del]

function pairwise_sum :: "real list \<Rightarrow> real" where
  "pairwise_sum a =
     (if length a < 8 then seq_add 0 a
      else if length a \<le> 128 then
        (let r = acc_blocks (take 8 a) (drop 8 (take (length a - length a mod 8) a));
             res = add_f64 (add_f64 (add_f64 (r ! 0) (r ! 1)) (add_f64 (r ! 2) (r ! 3)))
                           (add_f64 (add_f64 (r ! 4) (r ! 5)) (add_f64 (r ! 6) (r ! 7)))
         in seq_add res (drop (length a - length a mod 8) a))
      else
        add_f64 (pairwise_sum (take (length a div 2 - length a div 2 mod 8) a))
                (pairwise_sum (drop (length a div 2 - length a div 2 mod 8) a)))"
  by pat_completeness auto
termination
  by (relation "measure length") auto

declare pairwise_sum.simps [simp del]

text \<open>\<open>ndarray.mean()\<close> is the sum divided by the count; \<open>ndarray.std()\<close> subtracts
  the mean from every element, multiplies each difference by itself, sums, divides by
  the count and takes the square root. Line 62 adds the mean and the product of the
  z-score and the standard deviation.\<close>

definition mean_f64 :: "real list \<Rightarrow> real" where
  "mean_f64 arr = div_f64 (pairwise_sum arr) (real (length arr))"

definition std_f64 :: "real list \<Rightarrow> real" where
  "std_f64 arr =
     (let arrmean = mean_f64 arr;
          x = map (\<lambda>a. sub_f64 a arrmean) arr;
          x = map (\<lambda>v. mul_f64 v v) x;
          ret = div_f64 (pairwise_sum x) (real (length arr))
      in sqrt_f64 ret)"

definition var_percent_f64 :: "real \<Rightarrow> real list \<Rightarrow> real" where
  "var_percent_f64 z_score returns_1d =
     add_f64 (mean_f64 returns_1d) (mul_f64 z_score (std_f64 returns_1d))"

text \<open>The double nearest to \<open>0.01\<close>.\<close>

definition cent :: real where
  "cent = 5764607523034235 / 2 ^ 59"

section \<open>The estimators as the specification words them\<close>

text \<open>The population standard deviation, divisor \<open>n\<close>.\<close>

definition population_sd :: "real list \<Rightarrow> real" where
  "population_sd rs =
     sqrt ((1 / real (length rs)) * (\<Sum>r\<leftarrow>rs. (r - mean rs)\<^sup>2))"

text \<open>The Bessel-corrected standard deviation, divisor \<open>n - 1\<close>.\<close>

definition bessel_sd :: "real list \<Rightarrow> real" where
  "bessel_sd rs =
     sqrt ((1 / (real (length rs) - 1)) * (\<Sum>r\<leftarrow>rs. (r - mean rs)\<^sup>2))"

text \<open>The quantile at probability \<open>p\<close> by linear interpolation between order
  statistics: the \<open>i\<close>-th smallest value sits at probability \<open>i / (n - 1)\<close>, and
  between two neighbours the quantile moves on the straight line through them.\<close>

definition linear_quantile :: "real list \<Rightarrow> real \<Rightarrow> real" where
  "linear_quantile rs p =
     (let s = sort rs;
          n = length s;
          h = p * real (n - 1);
          k = nat \<lfloor>h\<rfloor>
      in if k + 1 < n then s ! k + (h - real k) * (s ! (k + 1) - s ! k)
         else s ! (n - 1))"

text \<open>The ten-value return series of the specification's Historical test.\<close>

definition sample_returns :: "real list" where
  "sample_returns = [-0.05, -0.03, -0.01, 0.00, 0.01, 0.02, 0.03, 0.04, 0.05, 0.06]"

text \<open>A ten-value return series with mean \<open>0.001\<close> and standard deviation \<open>0.02\<close>,
  the figures of the specification's Variance-Covariance test.\<close>

definition vc_returns :: "real list" where
  "vc_returns = [0.021, - 0.019, 0.021, - 0.019, 0.021, - 0.019, 0.021, - 0.019, 0.021, - 0.019]"

section \<open>Helper facts\<close>

lemma sum_list_replicate_real: "sum_list (replicate n (c::real)) = real n * c"
  by (induction n) (simp_all add: algebra_simps)

lemma mean_replicate: "0 < n \<Longrightarrow> mean (replicate n c) = c"
  by (simp add: mean_def sum_list_replicate_real)

lemma pct_pairs_length: "length (pct_pairs p ps) = length ps"
  by (induction ps arbitrary: p) simp_all

lemma pct_pairs_nth:
  "i < length ps \<Longrightarrow> pct_pairs p ps ! i = fsub_one (fdiv (ps ! i) ((p # ps) ! i))"
proof (induction ps arbitrary: p i)
  case Nil
  then show ?case by simp
next
  case (Cons c cs)
  then show ?case by (cases i) simp_all
qed

lemma fsub_one_fdiv_nonzero: "b \<noteq> 0 \<Longrightarrow> fsub_one (fdiv a b) = Fin (a / b - 1)"
  by (simp add: fdiv_def)

lemma fsub_one_fdiv_NaN: "fsub_one (fdiv a b) = NaN \<longleftrightarrow> a = 0 \<and> b = 0"
  by (auto simp: fdiv_def)

lemma fsub_one_fdiv_zero:
  "a \<noteq> 0 \<Longrightarrow> fsub_one (fdiv a 0) = (if 0 < a then PInf else NInf)"
  by (auto simp: fdiv_def)

lemma pct_pairs_no_NaN:
  "(\<forall>i. i < length ps \<longrightarrow> \<not> ((p # ps) ! i = 0 \<and> ps ! i = 0)) \<Longrightarrow> NaN \<notin> set (pct_pairs p ps)"
  by (auto simp: in_set_conv_nth pct_pairs_length pct_pairs_nth fsub_one_fdiv_NaN)

lemma build_returns_Cons:
  "NaN \<notin> set (pct_pairs p ps) \<Longrightarrow> build_returns (p # ps) = pct_pairs p ps"
  by (auto simp: build_returns_def dropna_def filter_id_conv)

lemma build_returns_no_zero_pair:
  assumes "\<forall>i. Suc i < length ps \<longrightarrow> \<not> (ps ! i = 0 \<and> ps ! Suc i = 0)"
  shows "length (build_returns ps) = length ps - 1"
    and "Suc i < length ps \<Longrightarrow> build_returns ps ! i = fsub_one (fdiv (ps ! Suc i) (ps ! i))"
proof -
  show "length (build_returns ps) = length ps - 1"
  proof (cases ps)
    case Nil
    then show ?thesis by (simp add: build_returns_def dropna_def)
  next
    case (Cons p qs)
    have "NaN \<notin> set (pct_pairs p qs)"
      using assms Cons by (intro pct_pairs_no_NaN) auto
    then show ?thesis using Cons by (simp add: build_returns_Cons pct_pairs_length)
  qed
  show "build_returns ps ! i = fsub_one (fdiv (ps ! Suc i) (ps ! i))" if "Suc i < length ps"
  proof (cases ps)
    case Nil
    then show ?thesis using that by simp
  next
    case (Cons p qs)
    have "NaN \<notin> set (pct_pairs p qs)"
      using assms Cons by (intro pct_pairs_no_NaN) auto
    then show ?thesis using Cons that by (simp add: build_returns_Cons pct_pairs_nth)
  qed
qed

lemma std_population: "std rs = population_sd rs"
  by (simp add: std_def population_sd_def mean_def[of "map f rs" for f] comp_def)

lemma sort_sample: "sort sample_returns = sample_returns"
  by (simp add: sample_returns_def)

lemma percentile_sample_10: "percentile sample_returns 10 = Inr (- 0.032)"
  by (simp add: percentile_def sort_sample Let_def) (simp add: sample_returns_def lerp_def)

lemma percentile_sample_0: "percentile sample_returns 0 = Inr (- 0.05)"
  by (simp add: percentile_def sort_sample Let_def) (simp add: sample_returns_def lerp_def)

lemma estimate_sample:
  "estimate Historical 0.9 amt sample_returns
     = Inr \<lparr>var_percent = - 0.032, var_dollar = - 0.032 * amt, curve = None\<rparr>"
proof -
  have "(1 - 0.9) * 100 = (10::real)" by simp
  then have "compute_var_percent Historical 0.9 sample_returns = Inr (- 0.032, None)"
    by (simp add: compute_var_percent_def percentile_sample_10)
  then show ?thesis by (simp add: estimate_def sample_returns_def)
qed

lemma lerp_linear: "lerp a b t = a + t * (b - a)"
  by (simp add: lerp_def algebra_simps)

lemma percentile_linear_quantile:
  assumes "2 \<le> length rs" and "0 \<le> q" and "q < 100"
  shows "percentile rs q = Inr (linear_quantile rs (q / 100))"
proof -
  define m where "m = length rs - 1"
  define h where "h = q / 100 * real m"
  define k where "k = nat \<lfloor>h\<rfloor>"
  have m: "0 < m" "length rs = Suc m" using assms(1) by (simp_all add: m_def)
  have h0: "0 \<le> h" using assms by (simp add: h_def)
  have "q / 100 < 1" using assms by simp
  then have "h < real m" using m(1) by (simp add: h_def)
  then have "\<lfloor>h\<rfloor> < int m" by (simp add: floor_less_iff)
  then have k: "k < m" using h0 by (simp add: k_def nat_less_iff)
  have mk: "min k m = k" "min (k + 1) m = k + 1" "k + 1 < Suc m"
    using k by simp_all
  have len: "length (sort rs) = Suc m" by (simp add: m(2))
  have vi: "real (length (sort rs) - 1) * (q / 100) = h"
    by (simp add: h_def m(2))
  have hh: "q / 100 * real (Suc m - 1) = h"
    by (simp add: h_def)
  have "percentile rs q
      = Inr (lerp (sort rs ! min k m) (sort rs ! min (k + 1) m) (h - real k))"
    using assms(2,3) unfolding percentile_def Let_def vi k_def[symmetric]
    by (simp add: m(2))
  also have "\<dots> = Inr (sort rs ! k + (h - real k) * (sort rs ! (k + 1) - sort rs ! k))"
    by (simp only: mk lerp_linear)
  also have "sort rs ! k + (h - real k) * (sort rs ! (k + 1) - sort rs ! k)
      = linear_quantile rs (q / 100)"
    unfolding linear_quantile_def Let_def len hh k_def[symmetric]
    using mk(3) by (simp only: if_True)
  finally show ?thesis .
qed

subsection \<open>The normal distribution function: derivative, monotonicity, bounds\<close>

text \<open>The series converges everywhere; differentiating it term by term gives the normal
  density, so the distribution function is continuous and strictly increasing.\<close>

lemma cdf_coeff_abs_le: "\<bar>cdf_coeff k\<bar> \<le> inverse (fact k)"
proof -
  have "(1::real) * 1 \<le> real (2 * k + 1) * 2 ^ k"
    by (intro mult_mono) simp_all
  then have "1 * fact k \<le> (real (2 * k + 1) * 2 ^ k) * (fact k :: real)"
    by (intro mult_right_mono) simp_all
  then have "inverse (real (2 * k + 1) * 2 ^ k * fact k) \<le> inverse (fact k :: real)"
    by (intro le_imp_inverse_le) simp_all
  moreover have "\<bar>cdf_coeff k\<bar> = inverse (real (2 * k + 1) * 2 ^ k * fact k)"
    by (simp add: cdf_coeff_def abs_mult power_abs field_simps)
  ultimately show ?thesis by simp
qed

lemma summable_cdf_series: "summable (\<lambda>k. cdf_coeff k * u ^ k)"
proof (rule summable_comparison_test')
  show "summable (\<lambda>n. inverse (fact n) * \<bar>u\<bar> ^ n)"
    by (rule summable_exp)
  show "norm (cdf_coeff n * u ^ n) \<le> inverse (fact n) * \<bar>u\<bar> ^ n" if "n \<ge> 0" for n
    using cdf_coeff_abs_le[of n]
    by (simp add: abs_mult power_abs mult_right_mono)
qed

lemma DERIV_cdf_series:
  "((\<lambda>u. \<Sum>k. cdf_coeff k * u ^ k) has_field_derivative (\<Sum>k. diffs cdf_coeff k * u ^ k)) (at u)"
  by (rule termdiffs_strong_converges_everywhere) (rule summable_cdf_series)

lemma cdf_series_ode:
  "(\<Sum>k. cdf_coeff k * u ^ k) + 2 * u * (\<Sum>k. diffs cdf_coeff k * u ^ k) = exp (- u / 2)"
proof -
  define g where "g k = 2 * real k * cdf_coeff k * u ^ k" for k
  have a: "(\<lambda>k. cdf_coeff k * u ^ k) sums (\<Sum>k. cdf_coeff k * u ^ k)"
    by (rule summable_sums[OF summable_cdf_series])
  have "summable (\<lambda>k. diffs cdf_coeff k * u ^ k)"
    by (rule termdiff_converges_all) (rule summable_cdf_series)
  then have "(\<lambda>k. diffs cdf_coeff k * u ^ k) sums (\<Sum>k. diffs cdf_coeff k * u ^ k)"
    by (rule summable_sums)
  then have "(\<lambda>k. 2 * u * (diffs cdf_coeff k * u ^ k)) sums (2 * u * (\<Sum>k. diffs cdf_coeff k * u ^ k))"
    by (rule sums_mult)
  moreover have "2 * u * (diffs cdf_coeff k * u ^ k) = g (Suc k)" for k
    by (simp add: g_def diffs_def)
  ultimately have "(\<lambda>k. g (Suc k)) sums (2 * u * (\<Sum>k. diffs cdf_coeff k * u ^ k))"
    by simp
  then have "g sums (2 * u * (\<Sum>k. diffs cdf_coeff k * u ^ k) + g 0)"
    by (simp only: sums_Suc_iff)
  then have b: "g sums (2 * u * (\<Sum>k. diffs cdf_coeff k * u ^ k))"
    by (simp add: g_def)
  have "(\<lambda>k. cdf_coeff k * u ^ k + g k)
      sums ((\<Sum>k. cdf_coeff k * u ^ k) + 2 * u * (\<Sum>k. diffs cdf_coeff k * u ^ k))"
    by (rule sums_add[OF a b])
  moreover have "cdf_coeff k * u ^ k + g k = (- u / 2) ^ k /\<^sub>R fact k" for k
  proof -
    have "cdf_coeff k * u ^ k + g k = (real (2 * k + 1) * cdf_coeff k) * u ^ k"
      by (simp add: g_def algebra_simps)
    also have "real (2 * k + 1) * cdf_coeff k = (- 1) ^ k / (2 ^ k * fact k)"
      by (simp add: cdf_coeff_def)
    also have "(- 1) ^ k / (2 ^ k * fact k) * u ^ k = (- u / 2) ^ k /\<^sub>R fact k"
    proof -
      have "(- u / 2) ^ k = (- 1) ^ k * u ^ k / 2 ^ k"
        using power_divide[of "- u" 2 k] power_minus[of u k] by simp
      then show ?thesis by (simp add: field_simps)
    qed
    finally show ?thesis .
  qed
  ultimately have "(\<lambda>k. (- u / 2) ^ k /\<^sub>R fact k)
      sums ((\<Sum>k. cdf_coeff k * u ^ k) + 2 * u * (\<Sum>k. diffs cdf_coeff k * u ^ k))"
    by simp
  moreover have "(\<lambda>k. (- u / 2) ^ k /\<^sub>R fact k) sums exp (- u / 2)"
    by (rule exp_converges)
  ultimately show ?thesis by (rule sums_unique2)
qed

lemma DERIV_norm_cdf:
  "(norm_cdf has_field_derivative exp (- x\<^sup>2 / 2) / sqrt (2 * pi)) (at x)"
proof -
  let ?T = "\<lambda>u. \<Sum>k. cdf_coeff k * u ^ k"
  let ?T' = "\<lambda>u. \<Sum>k. diffs cdf_coeff k * u ^ k"
  have "((\<lambda>x. ?T (x\<^sup>2)) has_field_derivative ?T' (x\<^sup>2) * (2 * x)) (at x)"
    by (rule DERIV_chain2[OF DERIV_cdf_series]) (auto intro!: derivative_eq_intros)
  then have "((\<lambda>x. x * ?T (x\<^sup>2)) has_field_derivative
      (1 * ?T (x\<^sup>2) + (?T' (x\<^sup>2) * (2 * x)) * x)) (at x)"
    by (intro DERIV_mult) (auto intro!: derivative_eq_intros)
  moreover have "1 * ?T (x\<^sup>2) + (?T' (x\<^sup>2) * (2 * x)) * x = exp (- x\<^sup>2 / 2)"
    using cdf_series_ode[of "x\<^sup>2"] by (simp add: power2_eq_square algebra_simps)
  ultimately have "((\<lambda>x. x * ?T (x\<^sup>2)) has_field_derivative exp (- x\<^sup>2 / 2)) (at x)"
    by simp
  then have "((\<lambda>x. x * ?T (x\<^sup>2) / sqrt (2 * pi)) has_field_derivative
      exp (- x\<^sup>2 / 2) / sqrt (2 * pi)) (at x)"
    by (rule DERIV_cdivide)
  then have "((\<lambda>x. 1 / 2 + x * ?T (x\<^sup>2) / sqrt (2 * pi)) has_field_derivative
      0 + exp (- x\<^sup>2 / 2) / sqrt (2 * pi)) (at x)"
    by (intro DERIV_add DERIV_const)
  then show ?thesis
    by (simp add: norm_cdf_def[abs_def])
qed

lemma norm_cdf_strict_mono:
  assumes "a < b"
  shows "norm_cdf a < norm_cdf b"
proof (rule DERIV_pos_imp_increasing[OF assms])
  fix x :: real
  have "(norm_cdf has_real_derivative exp (- x\<^sup>2 / 2) / sqrt (2 * pi)) (at x)"
    by (rule DERIV_norm_cdf)
  moreover have "0 < exp (- x\<^sup>2 / 2) / sqrt (2 * pi)"
    by simp
  ultimately show "\<exists>y. (norm_cdf has_real_derivative y) (at x) \<and> 0 < y"
    by blast
qed

lemma isCont_norm_cdf: "isCont norm_cdf x"
  using DERIV_norm_cdf by (rule DERIV_isCont)

text \<open>Bounds on \<open>pi\<close> from Machin's formula, with polynomial bounds on \<open>arctan\<close>.\<close>

lemma arctan_lower:
  assumes "0 \<le> x"
  shows "x - x ^ 3 / 3 + x ^ 5 / 5 - x ^ 7 / 7 \<le> arctan x"
proof -
  let ?f = "\<lambda>t::real. arctan t - (t - t ^ 3 / 3 + t ^ 5 / 5 - t ^ 7 / 7)"
  have "?f 0 \<le> ?f x"
  proof (rule DERIV_nonneg_imp_nondecreasing[OF assms])
    fix t :: real
    have pos: "0 < 1 + t\<^sup>2"
      by (rule add_pos_nonneg) simp_all
    have d: "(?f has_real_derivative (inverse (1 + t\<^sup>2) - (1 - t ^ 2 + t ^ 4 - t ^ 6))) (at t)"
      by (auto intro!: derivative_eq_intros)
    have e: "inverse (1 + t\<^sup>2) - (1 - t ^ 2 + t ^ 4 - t ^ 6) = t ^ 8 / (1 + t\<^sup>2)"
      using pos by (simp add: field_simps)
    have "0 \<le> t ^ 8 / (1 + t\<^sup>2)"
      using pos by (intro divide_nonneg_nonneg) simp_all
    with d show "\<exists>y. (?f has_real_derivative y) (at t) \<and> 0 \<le> y"
      unfolding e by blast
  qed
  then show ?thesis by simp
qed

lemma arctan_upper:
  assumes "0 \<le> x"
  shows "arctan x \<le> x - x ^ 3 / 3 + x ^ 5 / 5"
proof -
  let ?f = "\<lambda>t::real. (t - t ^ 3 / 3 + t ^ 5 / 5) - arctan t"
  have "?f 0 \<le> ?f x"
  proof (rule DERIV_nonneg_imp_nondecreasing[OF assms])
    fix t :: real
    have pos: "0 < 1 + t\<^sup>2"
      by (rule add_pos_nonneg) simp_all
    have d: "(?f has_real_derivative ((1 - t ^ 2 + t ^ 4) - inverse (1 + t\<^sup>2))) (at t)"
      by (auto intro!: derivative_eq_intros)
    have e: "(1 - t ^ 2 + t ^ 4) - inverse (1 + t\<^sup>2) = t ^ 6 / (1 + t\<^sup>2)"
      using pos by (simp add: field_simps)
    have "0 \<le> t ^ 6 / (1 + t\<^sup>2)"
      using pos by (intro divide_nonneg_nonneg) simp_all
    with d show "\<exists>y. (?f has_real_derivative y) (at t) \<and> 0 \<le> y"
      unfolding e by blast
  qed
  then show ?thesis by simp
qed

lemma arctan_fifth_bounds: "0.1973955 \<le> arctan (1 / 5)" "arctan (1 / 5) \<le> 0.1973974"
proof -
  have "(0.1973955::real) \<le> (1/5) - (1/5) ^ 3 / 3 + (1/5) ^ 5 / 5 - (1/5) ^ 7 / 7"
    by (simp add: power_one_over)
  also have "\<dots> \<le> arctan (1 / 5)"
    by (rule arctan_lower) simp
  finally show "0.1973955 \<le> arctan (1 / 5)" .
  have "arctan (1 / 5) \<le> (1/5) - (1/5) ^ 3 / 3 + (1/5) ^ 5 / 5"
    by (rule arctan_upper) simp
  also have "\<dots> \<le> (0.1973974::real)"
    by (simp add: power_one_over)
  finally show "arctan (1 / 5) \<le> 0.1973974" .
qed

lemma arctan_239_bounds: "0.004184076 \<le> arctan (1 / 239)" "arctan (1 / 239) \<le> 0.004184077"
proof -
  have "(0.004184076::real) \<le> (1/239) - (1/239) ^ 3 / 3 + (1/239) ^ 5 / 5 - (1/239) ^ 7 / 7"
    by (simp add: power_one_over)
  also have "\<dots> \<le> arctan (1 / 239)"
    by (rule arctan_lower) simp
  finally show "0.004184076 \<le> arctan (1 / 239)" .
  have "arctan (1 / 239) \<le> (1/239) - (1/239) ^ 3 / 3 + (1/239) ^ 5 / 5"
    by (rule arctan_upper) simp
  also have "\<dots> \<le> (0.004184077::real)"
    by (simp add: power_one_over)
  finally show "arctan (1 / 239) \<le> 0.004184077" .
qed

lemma pi_bounds: "3.14159 < pi" "pi < 3.14163"
proof -
  have m: "pi = 16 * arctan (1 / 5) - 4 * arctan (1 / 239)"
    using machin by simp
  show "3.14159 < pi"
    using arctan_fifth_bounds(1) arctan_239_bounds(2) unfolding m by simp
  show "pi < 3.14163"
    using arctan_fifth_bounds(2) arctan_239_bounds(1) unfolding m by simp
qed

text \<open>For \<open>0 \<le> u \<le> 6\<close> the series alternates with decreasing terms, so its partial
  sums enclose it.\<close>

lemma cdf_series_bounds:
  assumes "0 \<le> u" and "u \<le> 6"
  shows "(\<Sum>k<2 * n. cdf_coeff k * u ^ k) \<le> (\<Sum>k. cdf_coeff k * u ^ k)"
    and "(\<Sum>k. cdf_coeff k * u ^ k) \<le> (\<Sum>k<2 * n + 1. cdf_coeff k * u ^ k)"
proof -
  define b where "b k = u ^ k / (real (2 * k + 1) * 2 ^ k * fact k)" for k
  have eq: "cdf_coeff k * u ^ k = (- 1) ^ k * b k" for k
    by (simp add: cdf_coeff_def b_def)
  have nonneg: "0 \<le> b k" for k
    using assms(1) by (simp add: b_def)
  have mono: "b (Suc k) \<le> b k" for k
  proof -
    define A where "A = u ^ k / (2 ^ k * fact k)"
    define m where "m = real (2 * k + 1)"
    define D where "D = 2 * real (2 * k + 3) * real (k + 1)"
    have A: "0 \<le> A" using assms(1) by (simp add: A_def)
    have m: "0 < m" by (simp add: m_def)
    have D: "0 < D" by (simp add: D_def)
    have "u * m \<le> 6 * m"
      using assms(2) m by (intro mult_right_mono) simp_all
    also have "\<dots> \<le> D"
    proof -
      have kk: "real k \<le> real k * real k"
      proof (cases "k = 0")
        case True
        then show ?thesis by simp
      next
        case False
        then have "real k * 1 \<le> real k * real k"
          by (intro mult_left_mono) simp_all
        then show ?thesis by simp
      qed
      show ?thesis using kk by (simp add: m_def D_def algebra_simps)
    qed
    finally have "u / D \<le> 1 / m"
      using m D by (simp add: field_simps)
    then have "A * (u / D) \<le> A * (1 / m)"
      using A by (rule mult_left_mono)
    moreover have "b (Suc k) = A * (u / D)"
    proof -
      have "real (2 * Suc k + 1) * 2 ^ Suc k * fact (Suc k) = (2 ^ k * fact k) * D"
        by (simp add: D_def algebra_simps)
      then have "b (Suc k) = (u ^ k * u) / ((2 ^ k * fact k) * D)"
        unfolding b_def by (simp only: power_Suc2)
      then show ?thesis by (simp add: A_def)
    qed
    moreover have "b k = A * (1 / m)"
      by (simp add: b_def A_def m_def)
    ultimately show ?thesis by simp
  qed
  have lim: "b \<longlonglongrightarrow> 0"
  proof -
    have "(\<lambda>k. cdf_coeff k * u ^ k) \<longlonglongrightarrow> 0"
      by (rule summable_LIMSEQ_zero[OF summable_cdf_series])
    then have "(\<lambda>k. \<bar>cdf_coeff k * u ^ k\<bar>) \<longlonglongrightarrow> 0"
      by (simp only: tendsto_rabs_zero_iff)
    moreover have "\<bar>cdf_coeff k * u ^ k\<bar> = b k" for k
      using nonneg[of k] by (simp add: eq abs_mult)
    ultimately show ?thesis by simp
  qed
  show "(\<Sum>k<2 * n. cdf_coeff k * u ^ k) \<le> (\<Sum>k. cdf_coeff k * u ^ k)"
    using summable_Leibniz'(2)[OF lim nonneg mono, of n] by (simp only: eq)
  show "(\<Sum>k. cdf_coeff k * u ^ k) \<le> (\<Sum>k<2 * n + 1. cdf_coeff k * u ^ k)"
    using summable_Leibniz'(4)[OF lim nonneg mono, of n] by (simp only: eq)
qed

lemma cdf_partial_10:
  "(\<Sum>k<2 * 5. cdf_coeff k * u ^ k)
    = 1 - u / 6 + u ^ 2 / 40 - u ^ 3 / 336 + u ^ 4 / 3456 - u ^ 5 / 42240
      + u ^ 6 / 599040 - u ^ 7 / 9676800 + u ^ 8 / 175472640 - u ^ 9 / 3530096640"
  by (simp add: cdf_coeff_def eval_nat_numeral)

lemma cdf_partial_11:
  "(\<Sum>k<2 * 5 + 1. cdf_coeff k * u ^ k)
    = 1 - u / 6 + u ^ 2 / 40 - u ^ 3 / 336 + u ^ 4 / 3456 - u ^ 5 / 42240
      + u ^ 6 / 599040 - u ^ 7 / 9676800 + u ^ 8 / 175472640 - u ^ 9 / 3530096640
      + u ^ 10 / 78033715200"
  by (simp add: cdf_coeff_def eval_nat_numeral)

lemma sqrt_2pi_bounds: "2.50662 < sqrt (2 * pi)" "sqrt (2 * pi) < 2.50665"
proof -
  have "(2.50662::real)\<^sup>2 < 2 * 3.14159" by (simp add: power2_eq_square)
  also have "\<dots> < 2 * pi" using pi_bounds(1) by simp
  finally show "2.50662 < sqrt (2 * pi)" by (rule real_less_rsqrt)
  have "2 * pi < 2 * 3.14163" using pi_bounds(2) by simp
  also have "\<dots> < (2.50665::real)\<^sup>2" by (simp add: power2_eq_square)
  finally show "sqrt (2 * pi) < 2.50665" by (intro real_less_lsqrt) simp_all
qed

lemma norm_cdf_below: "norm_cdf (- 1.64495) < 0.05"
proof -
  define u :: real where "u = 1.64495\<^sup>2"
  define T where "T = (\<Sum>k. cdf_coeff k * u ^ k)"
  have u: "0 \<le> u" "u \<le> 6" by (simp_all add: u_def power2_eq_square)
  have "1.1279925 < 1.64495 * (\<Sum>k<2 * 5. cdf_coeff k * u ^ k)"
    unfolding cdf_partial_10 u_def by (simp add: power_divide)
  also have "\<dots> \<le> 1.64495 * T"
    unfolding T_def using cdf_series_bounds(1)[OF u, of 5] by (intro mult_left_mono) simp_all
  finally have T: "1.1279925 < 1.64495 * T" .
  have "0.45 * sqrt (2 * pi) < 0.45 * 2.50665"
    using sqrt_2pi_bounds(2) by simp
  also have "\<dots> = (1.1279925::real)" by simp
  finally have "0.45 * sqrt (2 * pi) < 1.64495 * T" using T by simp
  then have "0.45 < 1.64495 * T / sqrt (2 * pi)"
    by (simp add: pos_less_divide_eq)
  moreover have "norm_cdf (- 1.64495) = 1 / 2 - 1.64495 * T / sqrt (2 * pi)"
    by (simp add: norm_cdf_def T_def u_def)
  ultimately show ?thesis by simp
qed

lemma norm_cdf_above: "0.05 < norm_cdf (- 1.6445)"
proof -
  define u :: real where "u = 1.6445\<^sup>2"
  define T where "T = (\<Sum>k. cdf_coeff k * u ^ k)"
  have u: "0 \<le> u" "u \<le> 6" by (simp_all add: u_def power2_eq_square)
  have "1.6445 * T \<le> 1.6445 * (\<Sum>k<2 * 5 + 1. cdf_coeff k * u ^ k)"
    unfolding T_def using cdf_series_bounds(2)[OF u, of 5] by (intro mult_left_mono) simp_all
  also have "\<dots> < 1.127979"
    unfolding cdf_partial_11 u_def by (simp add: power_divide)
  finally have T: "1.6445 * T < 1.127979" .
  have "(1.127979::real) = 0.45 * 2.50662" by simp
  also have "\<dots> < 0.45 * sqrt (2 * pi)"
    using sqrt_2pi_bounds(1) by simp
  finally have "1.6445 * T < 0.45 * sqrt (2 * pi)" using T by simp
  then have "1.6445 * T / sqrt (2 * pi) < 0.45"
    by (simp add: pos_divide_less_eq)
  moreover have "norm_cdf (- 1.6445) = 1 / 2 - 1.6445 * T / sqrt (2 * pi)"
    by (simp add: norm_cdf_def T_def u_def)
  ultimately show ?thesis by simp
qed

lemma cdf_partial_12:
  "(\<Sum>k<2 * 6. cdf_coeff k * u ^ k)
    = 1 - u / 6 + u ^ 2 / 40 - u ^ 3 / 336 + u ^ 4 / 3456 - u ^ 5 / 42240
      + u ^ 6 / 599040 - u ^ 7 / 9676800 + u ^ 8 / 175472640 - u ^ 9 / 3530096640
      + u ^ 10 / 78033715200 - u ^ 11 / 1880240947200"
  by (simp add: cdf_coeff_def eval_nat_numeral)

lemma norm_cdf_symmetric: "norm_cdf (- x) = 1 - norm_cdf x"
  by (simp add: norm_cdf_def)

lemma norm_cdf_tail: "norm_cdf (- 2.4) < 0.01"
proof -
  define u :: real where "u = 2.4\<^sup>2"
  define T where "T = (\<Sum>k. cdf_coeff k * u ^ k)"
  have u: "0 \<le> u" "u \<le> 6" by (simp_all add: u_def power2_eq_square)
  have "1.2282585 < 2.4 * (\<Sum>k<2 * 6. cdf_coeff k * u ^ k)"
    unfolding cdf_partial_12 u_def by (simp add: power_divide)
  also have "\<dots> \<le> 2.4 * T"
    unfolding T_def using cdf_series_bounds(1)[OF u, of 6] by (intro mult_left_mono) simp_all
  finally have T: "1.2282585 < 2.4 * T" .
  have "0.49 * sqrt (2 * pi) < 0.49 * 2.50665"
    using sqrt_2pi_bounds(2) by simp
  also have "\<dots> = (1.2282585::real)" by simp
  finally have "0.49 * sqrt (2 * pi) < 2.4 * T" using T by simp
  then have "0.49 < 2.4 * T / sqrt (2 * pi)"
    by (simp add: pos_less_divide_eq)
  moreover have "norm_cdf (- 2.4) = 1 / 2 - 2.4 * T / sqrt (2 * pi)"
    by (simp add: norm_cdf_def T_def u_def)
  ultimately show ?thesis by simp
qed

lemma norm_cdf_inj: "norm_cdf y = norm_cdf z \<Longrightarrow> y = z"
proof (rule ccontr)
  assume eq: "norm_cdf y = norm_cdf z" and "y \<noteq> z"
  then consider "y < z" | "z < y" by linarith
  then show False
  proof cases
    case 1
    from norm_cdf_strict_mono[OF 1] eq show False by simp
  next
    case 2
    from norm_cdf_strict_mono[OF 2] eq show False by simp
  qed
qed

lemma norm_ppf_eq: "norm_cdf z = p \<Longrightarrow> norm_ppf p = z"
  unfolding norm_ppf_def by (rule the_equality) (auto intro: norm_cdf_inj)

lemma norm_ppf_inverse:
  assumes "0.01 \<le> p" and "p \<le> 0.99"
  shows "norm_cdf (norm_ppf p) = p"
proof -
  have "norm_cdf 2.4 = 1 - norm_cdf (- 2.4)"
    using norm_cdf_symmetric[of "2.4"] by simp
  then have "0.99 < norm_cdf 2.4"
    using norm_cdf_tail by simp
  then have "\<exists>z. - 2.4 \<le> z \<and> z \<le> 2.4 \<and> norm_cdf z = p"
    using norm_cdf_tail assms
    by (intro IVT) (simp_all add: isCont_norm_cdf)
  then obtain z where z: "norm_cdf z = p" by blast
  then have "norm_ppf p = z" by (rule norm_ppf_eq)
  then show ?thesis using z by simp
qed

lemma norm_ppf_at_5_percent: "- 1.64495 < norm_ppf 0.05" "norm_ppf 0.05 < - 1.6445"
proof -
  have c: "norm_cdf (norm_ppf 0.05) = 0.05"
    by (rule norm_ppf_inverse) simp_all
  show "- 1.64495 < norm_ppf 0.05"
  proof (rule ccontr)
    assume "\<not> - 1.64495 < norm_ppf 0.05"
    then have "norm_ppf 0.05 < - 1.64495 \<or> norm_ppf 0.05 = - 1.64495" by linarith
    then have "norm_cdf (norm_ppf 0.05) \<le> norm_cdf (- 1.64495)"
      using norm_cdf_strict_mono[of "norm_ppf 0.05" "- 1.64495"] by auto
    then show False using norm_cdf_below c by simp
  qed
  show "norm_ppf 0.05 < - 1.6445"
  proof (rule ccontr)
    assume "\<not> norm_ppf 0.05 < - 1.6445"
    then have "- 1.6445 < norm_ppf 0.05 \<or> norm_ppf 0.05 = - 1.6445" by linarith
    then have "norm_cdf (- 1.6445) \<le> norm_cdf (norm_ppf 0.05)"
      using norm_cdf_strict_mono[of "- 1.6445" "norm_ppf 0.05"] by auto
    then show False using norm_cdf_above c by simp
  qed
qed

lemma mean_vc_returns: "mean vc_returns = 0.001"
  by (simp add: mean_def vc_returns_def)

lemma std_vc_returns: "std vc_returns = 0.02"
proof -
  have "mean (map (\<lambda>x. \<bar>x - mean vc_returns\<bar>\<^sup>2) vc_returns) = 0.02\<^sup>2"
    unfolding mean_vc_returns by (simp add: mean_def vc_returns_def power2_eq_square)
  then have "std vc_returns = sqrt (0.02\<^sup>2)"
    by (simp only: std_def)
  also have "\<dots> = 0.02" by (simp only: real_sqrt_abs) simp
  finally show ?thesis .
qed

lemma estimate_variance_covariance:
  "10 \<le> length rs \<Longrightarrow>
   estimate VarianceCovariance cl amt rs
     = Inr \<lparr>var_percent = mean rs + norm_ppf (1 - cl) * std rs,
            var_dollar = (mean rs + norm_ppf (1 - cl) * std rs) * amt,
            curve = Some (mean rs, std rs)\<rparr>"
  by (simp add: estimate_def compute_var_percent_def Let_def)

lemma var_percent_at_95:
  assumes "m = 0.001" and "s = 0.02"
  shows "1 / 10 ^ 6 < m + norm_ppf (1 - 0.95) * s - (- 0.0319)"
    and "m + norm_ppf (1 - 0.95) * s - (- 0.0319) < 1 / 10 ^ 5"
proof -
  have p: "(1 - 0.95 :: real) = 0.05" by simp
  show "1 / 10 ^ 6 < m + norm_ppf (1 - 0.95) * s - (- 0.0319)"
    unfolding p assms using norm_ppf_at_5_percent(1) by simp
  show "m + norm_ppf (1 - 0.95) * s - (- 0.0319) < 1 / 10 ^ 5"
    unfolding p assms using norm_ppf_at_5_percent(2) by simp
qed

subsection \<open>Double precision\<close>

lemma pow2_pos: "0 < pow2 i"
  by (simp add: pow2_def)

lemma pow2_powr: "pow2 i = 2 powr (of_int i)"
proof (cases "0 \<le> i")
  case True
  then have "2 powr (of_int i) = (2::real) powr (real (nat i))" by simp
  also have "\<dots> = 2 ^ nat i" by (rule powr_realpow) simp
  finally show ?thesis using True by (simp add: pow2_def)
next
  case False
  then have "2 powr (of_int i) = (2::real) powr (- real (nat (- i)))" by simp
  also have "\<dots> = inverse (2 powr (real (nat (- i))))" by (rule powr_minus)
  also have "2 powr (real (nat (- i))) = (2::real) ^ nat (- i)" by (rule powr_realpow) simp
  finally show ?thesis using False by (simp add: pow2_def inverse_eq_divide)
qed

lemma binade:
  assumes "pow2 e \<le> \<bar>x\<bar>" and "\<bar>x\<bar> < pow2 (e + 1)"
  shows "\<lfloor>log 2 \<bar>x\<bar>\<rfloor> = e"
proof (rule floor_unique)
  have x: "0 < \<bar>x\<bar>" using assms(1) pow2_pos[of e] by linarith
  show "of_int e \<le> log 2 \<bar>x\<bar>"
    using assms(1) x by (simp add: le_log_iff pow2_powr)
  show "log 2 \<bar>x\<bar> < of_int e + 1"
    using assms(2) x by (simp add: log_less_iff pow2_powr)
qed

lemma rnd_eval:
  assumes "pow2 e \<le> \<bar>x\<bar>" and "\<bar>x\<bar> < pow2 (e + 1)"
  shows "rnd x = of_int (round_even (x / pow2 (e - 52))) * pow2 (e - 52)"
proof -
  have "x \<noteq> 0" using assms(1) pow2_pos[of e] by auto
  then show ?thesis by (simp add: rnd_def binade[OF assms] Let_def)
qed

lemma rnd_zero: "rnd 0 = 0"
  by (simp add: rnd_def)

lemma acc_blocks_Nil: "acc_blocks r [] = r"
  by (subst acc_blocks.simps) simp

lemma pairwise_sum_10:
  "pairwise_sum (replicate 10 x)
     = add_f64 (add_f64 (add_f64 (add_f64 (add_f64 x x) (add_f64 x x))
                                 (add_f64 (add_f64 x x) (add_f64 x x))) x) x"
proof -
  have d: "replicate 2 x = [x, x]"
    by (simp add: numeral_2_eq_2)
  show ?thesis
    by (subst pairwise_sum.simps) (simp add: Let_def acc_blocks_Nil d)
qed

lemma mean_f64_cent: "mean_f64 (replicate 10 cent) = cent - 1 / 2 ^ 59"
proof -
  define c2 :: real where "c2 = 5764607523034235 / 2 ^ 58"
  define c4 :: real where "c4 = 5764607523034235 / 2 ^ 57"
  define c8 :: real where "c8 = 5764607523034235 / 2 ^ 56"
  define c9 :: real where "c9 = 6485183463413514 / 2 ^ 56"
  define c10 :: real where "c10 = 7205759403792793 / 2 ^ 56"
  have 1: "add_f64 cent cent = c2"
    unfolding add_f64_def cent_def c2_def by (subst rnd_eval[of "- 6"]) (simp_all add: pow2_def round_even_def)
  have 2: "add_f64 c2 c2 = c4"
    unfolding add_f64_def c2_def c4_def by (subst rnd_eval[of "- 5"]) (simp_all add: pow2_def round_even_def)
  have 3: "add_f64 c4 c4 = c8"
    unfolding add_f64_def c4_def c8_def by (subst rnd_eval[of "- 4"]) (simp_all add: pow2_def round_even_def)
  have 4: "add_f64 c8 cent = c9"
    unfolding add_f64_def c8_def c9_def cent_def by (subst rnd_eval[of "- 4"]) (simp_all add: pow2_def round_even_def)
  have 5: "add_f64 c9 cent = c10"
    unfolding add_f64_def c9_def c10_def cent_def by (subst rnd_eval[of "- 4"]) (simp_all add: pow2_def round_even_def)
  have 6: "div_f64 c10 10 = cent - 1 / 2 ^ 59"
    unfolding div_f64_def c10_def cent_def by (subst rnd_eval[of "- 7"]) (simp_all add: pow2_def round_even_def)
  have "pairwise_sum (replicate 10 cent) = c10"
    unfolding pairwise_sum_10 by (simp only: 1 2 3 4 5)
  then show ?thesis
    unfolding mean_f64_def by (simp add: 6)
qed

lemma std_f64_cent: "std_f64 (replicate 10 cent) = 1 / 2 ^ 59"
proof -
  define u :: real where "u = 1 / 2 ^ 59"
  define q :: real where "q = 1 / 2 ^ 118"
  define q2 :: real where "q2 = 1 / 2 ^ 117"
  define q4 :: real where "q4 = 1 / 2 ^ 116"
  define q8 :: real where "q8 = 1 / 2 ^ 115"
  define q9 :: real where "q9 = 9 / 2 ^ 118"
  define q10 :: real where "q10 = 10 / 2 ^ 118"
  have m: "mean_f64 (replicate 10 cent) = cent - u"
    unfolding u_def by (rule mean_f64_cent)
  have dev: "sub_f64 cent (cent - u) = u"
    unfolding sub_f64_def u_def cent_def by (subst rnd_eval[of "- 59"]) (simp_all add: pow2_def round_even_def)
  have sq: "mul_f64 u u = q"
    unfolding mul_f64_def u_def q_def by (subst rnd_eval[of "- 118"]) (simp_all add: pow2_def round_even_def)
  have 1: "add_f64 q q = q2"
    unfolding add_f64_def q_def q2_def by (subst rnd_eval[of "- 117"]) (simp_all add: pow2_def round_even_def)
  have 2: "add_f64 q2 q2 = q4"
    unfolding add_f64_def q2_def q4_def by (subst rnd_eval[of "- 116"]) (simp_all add: pow2_def round_even_def)
  have 3: "add_f64 q4 q4 = q8"
    unfolding add_f64_def q4_def q8_def by (subst rnd_eval[of "- 115"]) (simp_all add: pow2_def round_even_def)
  have 4: "add_f64 q8 q = q9"
    unfolding add_f64_def q8_def q9_def q_def by (subst rnd_eval[of "- 115"]) (simp_all add: pow2_def round_even_def)
  have 5: "add_f64 q9 q = q10"
    unfolding add_f64_def q9_def q10_def q_def by (subst rnd_eval[of "- 115"]) (simp_all add: pow2_def round_even_def)
  have 6: "div_f64 q10 10 = q"
    unfolding div_f64_def q10_def q_def by (subst rnd_eval[of "- 118"]) (simp_all add: pow2_def round_even_def)
  have "sqrt q = u"
  proof -
    have "q = u\<^sup>2" by (simp add: q_def u_def power2_eq_square)
    moreover have "0 \<le> u" by (simp add: u_def)
    ultimately show ?thesis by simp
  qed
  then have 7: "sqrt_f64 q = u"
    unfolding sqrt_f64_def by (simp only:) (unfold u_def, subst rnd_eval[of "- 59"], simp_all add: pow2_def round_even_def)
  have x: "map (\<lambda>v. mul_f64 v v) (map (\<lambda>a. sub_f64 a (mean_f64 (replicate 10 cent))) (replicate 10 cent))
      = replicate 10 q"
    by (simp add: m dev sq)
  have s: "pairwise_sum (replicate 10 q) = q10"
    unfolding pairwise_sum_10 by (simp only: 1 2 3 4 5)
  have "std_f64 (replicate 10 cent) = u"
    unfolding std_f64_def Let_def x s by (simp add: 6 7)
  then show ?thesis by (simp add: u_def)
qed

lemma rnd_one_hundredth: "rnd (1 / 100) = cent"
  unfolding cent_def by (subst rnd_eval[of "- 7"]) (simp_all add: pow2_def round_even_def)

lemma add_f64_zero: "add_f64 0 0 = 0"
  by (simp add: add_f64_def rnd_zero)

lemma seq_add_zeros: "seq_add 0 (replicate k 0) = 0"
  by (induction k) (simp_all add: add_f64_zero)

lemma acc_blocks_zeros: "acc_blocks (replicate 8 0) (replicate k 0) = replicate 8 0"
proof (induction k rule: less_induct)
  case (less k)
  show ?case
  proof (cases "k < 8")
    case True
    then show ?thesis by (subst acc_blocks.simps) simp
  next
    case False
    then have "acc_blocks (replicate 8 0) (replicate k 0)
        = acc_blocks (replicate 8 0) (replicate (k - 8) 0)"
      by (subst acc_blocks.simps) (simp add: add_f64_zero min_def)
    also have "\<dots> = replicate 8 0"
      using False by (intro less.IH) simp
    finally show ?thesis .
  qed
qed

lemma pairwise_sum_zeros: "pairwise_sum (replicate n 0) = 0"
proof (induction n rule: less_induct)
  case (less n)
  consider "n < 8" | "8 \<le> n" "n \<le> 128" | "128 < n" by linarith
  then show ?case
  proof cases
    case 1
    then show ?thesis by (subst pairwise_sum.simps) (simp add: seq_add_zeros)
  next
    case 2
    show ?thesis
      using 2
      by (subst pairwise_sum.simps)
        (simp add: Let_def min_def acc_blocks_zeros add_f64_zero seq_add_zeros)
  next
    case 3
    define k where "k = n div 2 - n div 2 mod 8"
    have k: "0 < k" "k < n" using 3 by (simp_all add: k_def)
    have "pairwise_sum (replicate n 0)
        = add_f64 (pairwise_sum (replicate k 0)) (pairwise_sum (replicate (n - k) 0))"
      using 3 k by (subst pairwise_sum.simps) (simp add: k_def[symmetric] min_def)
    also have "\<dots> = 0"
      using k by (simp add: less.IH add_f64_zero)
    finally show ?thesis .
  qed
qed

lemma std_f64_identical:
  assumes "\<forall>x \<in> set rs. x = c" and "mean_f64 rs = c"
  shows "std_f64 rs = 0"
proof -
  have rs: "rs = replicate (length rs) c"
    using assms(1) by (simp add: replicate_length_same)
  have "map (\<lambda>v. mul_f64 v v) (map (\<lambda>a. sub_f64 a c) rs) = replicate (length rs) 0"
    by (subst rs) (simp add: sub_f64_def mul_f64_def rnd_zero)
  then show ?thesis
    unfolding std_f64_def Let_def assms(2)
    by (simp add: pairwise_sum_zeros div_f64_def sqrt_f64_def rnd_zero)
qed

lemma var_percent_f64_identical:
  assumes "\<forall>x \<in> set rs. x = c" and "mean_f64 rs = c" and "rnd c = c"
  shows "var_percent_f64 z rs = c"
  using assms(2,3) std_f64_identical[OF assms(1,2)]
  by (simp add: var_percent_f64_def add_f64_def mul_f64_def rnd_zero)

lemma mean_f64_ones: "mean_f64 (replicate 10 1) = 1"
proof -
  have 1: "add_f64 1 1 = 2"
    unfolding add_f64_def by (subst rnd_eval[of 1]) (simp_all add: pow2_def round_even_def)
  have 2: "add_f64 2 2 = 4"
    unfolding add_f64_def by (subst rnd_eval[of 2]) (simp_all add: pow2_def round_even_def)
  have 3: "add_f64 4 4 = 8"
    unfolding add_f64_def by (subst rnd_eval[of 3]) (simp_all add: pow2_def round_even_def)
  have 4: "add_f64 8 1 = 9"
    unfolding add_f64_def by (subst rnd_eval[of 3]) (simp_all add: pow2_def round_even_def)
  have 5: "add_f64 9 1 = 10"
    unfolding add_f64_def by (subst rnd_eval[of 3]) (simp_all add: pow2_def round_even_def)
  have 6: "div_f64 10 10 = 1"
    unfolding div_f64_def by (subst rnd_eval[of 0]) (simp_all add: pow2_def round_even_def)
  have "pairwise_sum (replicate 10 1) = 10"
    unfolding pairwise_sum_10 by (simp only: 1 2 3 4 5)
  then show ?thesis
    unfolding mean_f64_def by (simp add: 6)
qed

lemma rnd_one: "rnd 1 = 1"
  by (subst rnd_eval[of 0]) (simp_all add: pow2_def round_even_def)

subsection \<open>The return series as a filtered map over the price pairs\<close>

lemma pair_entry:
  "fsub_one (fdiv a b)
     = (if b \<noteq> 0 then Fin (a / b - 1) else if 0 < a then PInf else if a < 0 then NInf else NaN)"
  by (simp add: fdiv_def)

lemma pct_pairs_map:
  "pct_pairs p qs
     = map (\<lambda>i. fsub_one (fdiv ((p # qs) ! Suc i) ((p # qs) ! i))) [0..<length qs]"
proof (rule nth_equalityI)
  show "length (pct_pairs p qs)
      = length (map (\<lambda>i. fsub_one (fdiv ((p # qs) ! Suc i) ((p # qs) ! i))) [0..<length qs])"
    by (simp add: pct_pairs_length)
  fix i
  assume "i < length (pct_pairs p qs)"
  then have "i < length qs" by (simp add: pct_pairs_length)
  then show "pct_pairs p qs ! i
      = map (\<lambda>i. fsub_one (fdiv ((p # qs) ! Suc i) ((p # qs) ! i))) [0..<length qs] ! i"
    by (simp add: pct_pairs_nth)
qed

lemma build_returns_map:
  "build_returns ps
     = filter (\<lambda>x. x \<noteq> NaN)
         (map (\<lambda>i. if ps ! i \<noteq> 0 then Fin (ps ! Suc i / ps ! i - 1)
                   else if 0 < ps ! Suc i then PInf
                   else if ps ! Suc i < 0 then NInf else NaN)
            [0..<length ps - 1])"
proof (cases ps)
  case Nil
  then show ?thesis by (simp add: build_returns_def dropna_def)
next
  case (Cons p qs)
  have "build_returns ps = filter (\<lambda>x. x \<noteq> NaN) (pct_pairs p qs)"
    by (simp add: Cons build_returns_def dropna_def)
  also have "pct_pairs p qs
      = map (\<lambda>i. if ps ! i \<noteq> 0 then Fin (ps ! Suc i / ps ! i - 1)
                   else if 0 < ps ! Suc i then PInf
                   else if ps ! Suc i < 0 then NInf else NaN)
            [0..<length ps - 1]"
    unfolding pct_pairs_map Cons by (simp only: pair_entry) simp
  finally show ?thesis .
qed

subsection \<open>Identical returns in exact arithmetic\<close>

lemma identical_returns_exact:
  assumes "10 \<le> length rs" and "\<forall>x \<in> set rs. x = c"
  shows "mean rs = c \<and> std rs = 0
     \<and> estimate VarianceCovariance cl amt rs
         = Inr \<lparr>var_percent = c, var_dollar = c * amt, curve = Some (c, 0)\<rparr>"
proof -
  have rs: "rs = replicate (length rs) c"
    using assms(2) by (simp add: replicate_length_same)
  have n: "0 < length rs" using assms(1) by auto
  have m: "mean rs = c" using mean_replicate[OF n, of c] rs by simp
  have "map (\<lambda>x. \<bar>x - c\<bar>\<^sup>2) rs = replicate (length rs) 0"
    using assms(2) by (simp add: map_replicate_const[symmetric] cong: map_cong)
  then have s: "std rs = 0"
    using mean_replicate[OF n, of 0] by (simp add: std_def m)
  have "estimate VarianceCovariance cl amt rs
         = Inr \<lparr>var_percent = c, var_dollar = c * amt, curve = Some (c, 0)\<rparr>"
    using assms(1) by (simp add: estimate_def compute_var_percent_def m s Let_def)
  with m s show ?thesis by blast
qed

section \<open>The claims\<close>

text \<open>Claim C1, as the code has it. For ten or more returns and a confidence level strictly
  between 0 and 1, the Variance-Covariance method returns \<open>mean + z * std\<close> with
  \<open>z = norm_ppf (1 - confidence_level)\<close>, the point where the standard normal
  distribution function takes the value \<open>1 - confidence_level\<close> (shown here for
  \<open>1 - confidence_level\<close> between 0.01 and 0.99, which covers the slider). For mean
  \<open>0.001\<close>, standard deviation \<open>0.02\<close> and confidence level 0.95 the result exceeds
  \<open>- 0.0319\<close> by more than \<open>1 / 10 ^ 6\<close> and by less than \<open>1 / 10 ^ 5\<close>: there
  \<open>z\<close> lies between \<open>- 1.64495\<close> and \<open>- 1.6445\<close>, it is not the rounded
  \<open>- 1.645\<close>.\<close>

theorem variance_covariance_formula:
  assumes "10 \<le> length rs" and "0 < cl" and "cl < 1"
  shows "\<exists>r. estimate VarianceCovariance cl amt rs = Inr r
      \<and> var_percent r = mean rs + norm_ppf (1 - cl) * std rs
      \<and> (0.01 \<le> 1 - cl \<and> 1 - cl \<le> 0.99 \<longrightarrow> norm_cdf (norm_ppf (1 - cl)) = 1 - cl)
      \<and> (mean rs = 0.001 \<and> std rs = 0.02 \<and> cl = 0.95 \<longrightarrow>
            1 / 10 ^ 6 < var_percent r - (- 0.0319) \<and> var_percent r - (- 0.0319) < 1 / 10 ^ 5)"
proof -
  let ?v = "mean rs + norm_ppf (1 - cl) * std rs"
  let ?r = "\<lparr>var_percent = ?v, var_dollar = ?v * amt, curve = Some (mean rs, std rs)\<rparr>"
  have 1: "estimate VarianceCovariance cl amt rs = Inr ?r"
    using assms(1) by (rule estimate_variance_covariance)
  have 2: "norm_cdf (norm_ppf (1 - cl)) = 1 - cl" if "0.01 \<le> 1 - cl \<and> 1 - cl \<le> 0.99"
    using that by (intro norm_ppf_inverse) simp_all
  have 3: "1 / 10 ^ 6 < ?v - (- 0.0319) \<and> ?v - (- 0.0319) < 1 / 10 ^ 5"
    if "mean rs = 0.001 \<and> std rs = 0.02 \<and> cl = 0.95"
    using var_percent_at_95[of "mean rs" "std rs"] that by blast
  show ?thesis
    using 1 2 3 by (intro exI[of _ ?r]) simp
qed

theorem variance_covariance_formula_witness:
  "10 \<le> length vc_returns \<and> mean vc_returns = 0.001 \<and> std vc_returns = 0.02
   \<and> (\<exists>r. estimate VarianceCovariance 0.95 1000 vc_returns = Inr r
        \<and> norm_cdf (norm_ppf (1 - 0.95)) = 1 - 0.95
        \<and> 1 / 10 ^ 6 < var_percent r - (- 0.0319)
        \<and> var_percent r - (- 0.0319) < 1 / 10 ^ 5)"
proof -
  have a: "10 \<le> length vc_returns" by (simp add: vc_returns_def)
  have b: "(0::real) < 0.95" and c: "(0.95::real) < 1" by simp_all
  have d: "(0.01::real) \<le> 1 - 0.95 \<and> (1 - 0.95 :: real) \<le> 0.99" by simp
  from variance_covariance_formula[OF a b c, of 1000] d mean_vc_returns std_vc_returns
  have "\<exists>r. estimate VarianceCovariance 0.95 1000 vc_returns = Inr r
        \<and> norm_cdf (norm_ppf (1 - 0.95)) = 1 - 0.95
        \<and> 1 / 10 ^ 6 < var_percent r - (- 0.0319)
        \<and> var_percent r - (- 0.0319) < 1 / 10 ^ 5"
    by blast
  with a mean_vc_returns std_vc_returns show ?thesis by blast
qed

text \<open>The claim as the specification words it (within \<open>1 / 10 ^ 6\<close> of
  \<open>- 0.0319\<close>) fails on this input.\<close>

theorem rounded_z_counterexample:
  "mean vc_returns = 0.001 \<and> std vc_returns = 0.02
   \<and> \<not> \<bar>var_percent (projr (estimate VarianceCovariance 0.95 1000 vc_returns)) - (- 0.0319)\<bar>
         \<le> 1 / 10 ^ 6"
proof -
  have a: "10 \<le> length vc_returns" by (simp add: vc_returns_def)
  have "var_percent (projr (estimate VarianceCovariance 0.95 1000 vc_returns))
      = mean vc_returns + norm_ppf (1 - 0.95) * std vc_returns"
    by (simp add: estimate_variance_covariance[OF a])
  moreover have "1 / 10 ^ 6 < mean vc_returns + norm_ppf (1 - 0.95) * std vc_returns - (- 0.0319)"
    by (rule var_percent_at_95(1)[OF mean_vc_returns std_vc_returns])
  ultimately have "\<not> \<bar>var_percent (projr (estimate VarianceCovariance 0.95 1000 vc_returns)) - (- 0.0319)\<bar>
         \<le> 1 / 10 ^ 6"
    by linarith
  then show ?thesis using mean_vc_returns std_vc_returns by blast
qed

text \<open>Claim C2. For ten or more returns and a confidence level strictly between 0 and 1, the
  Historical method returns the quantile of the returns at probability
  \<open>1 - confidence_level\<close> by linear interpolation between order statistics; for the
  ten-value test series at confidence level 0.90 that value is \<open>- 0.032\<close>.\<close>

theorem historical_is_linear_quantile:
  assumes "10 \<le> length rs" and "0 < cl" and "cl < 1"
  shows "estimate Historical cl amt rs
     = Inr \<lparr>var_percent = linear_quantile rs (1 - cl),
            var_dollar = linear_quantile rs (1 - cl) * amt, curve = None\<rparr>"
proof -
  have "percentile rs ((1 - cl) * 100) = Inr (linear_quantile rs ((1 - cl) * 100 / 100))"
    using assms by (intro percentile_linear_quantile) simp_all
  moreover have "(1 - cl) * 100 / 100 = 1 - cl" by simp
  ultimately have "percentile rs ((1 - cl) * 100) = Inr (linear_quantile rs (1 - cl))"
    by (simp only:)
  then have "compute_var_percent Historical cl rs = Inr (linear_quantile rs (1 - cl), None)"
    unfolding compute_var_percent_def by (simp only: var_method.case sum.case)
  then show ?thesis using assms(1) by (simp add: estimate_def)
qed

theorem historical_is_linear_quantile_witness:
  "10 \<le> length sample_returns \<and> (0::real) < 0.9 \<and> (0.9::real) < 1
   \<and> linear_quantile sample_returns (1 - 0.9) = - 0.032
   \<and> estimate Historical 0.9 1000 sample_returns
     = Inr \<lparr>var_percent = - 0.032, var_dollar = - 32, curve = None\<rparr>"
proof -
  have a: "10 \<le> length sample_returns" by (simp add: sample_returns_def)
  have b: "(0::real) < 0.9" and c: "(0.9::real) < 1" by simp_all
  have "(1 - 0.9) * real (length sample_returns - 1) = 0.9"
    by (simp add: sample_returns_def)
  then have q: "linear_quantile sample_returns (1 - 0.9) = - 0.032"
    unfolding linear_quantile_def Let_def sort_sample
    by (simp add: sample_returns_def)
  from historical_is_linear_quantile[OF a b c, of 1000] q a b c show ?thesis by simp
qed

text \<open>Claim C3. For both methods, whenever the block produces a result for a positive
  investment, the dollar figure it shows is \<open>- var_percent * investment\<close>: non-negative
  when \<open>var_percent\<close> is negative, the same signed product otherwise, and linear in the
  investment (an investment \<open>c\<close> times as large shows \<open>c\<close> times the figure, with
  the same \<open>var_percent\<close>).\<close>

theorem displayed_dollar_formula:
  assumes "estimate m cl amt rs = Inr r" and "0 < amt"
  shows "displayed_dollar r = - var_percent r * amt
     \<and> (var_percent r < 0 \<longrightarrow> 0 \<le> displayed_dollar r)
     \<and> (\<forall>c. \<exists>r'. estimate m cl (c * amt) rs = Inr r' \<and> var_percent r' = var_percent r
            \<and> displayed_dollar r' = c * displayed_dollar r)"
proof -
  from assms(1) obtain vp cv where
    c: "compute_var_percent m cl rs = Inr (vp, cv)" and len: "\<not> length rs < 10"
    and r: "r = \<lparr>var_percent = vp, var_dollar = vp * amt, curve = cv\<rparr>"
    by (auto simp: estimate_def split: if_splits sum.splits prod.splits)
  have 1: "displayed_dollar r = - var_percent r * amt"
    by (simp add: r displayed_dollar_def)
  have 2: "var_percent r < 0 \<longrightarrow> 0 \<le> displayed_dollar r"
    using assms(2) by (auto simp: 1 mult_le_0_iff)
  have 3: "\<exists>r'. estimate m cl (c * amt) rs = Inr r' \<and> var_percent r' = var_percent r
            \<and> displayed_dollar r' = c * displayed_dollar r" for c
    using c len by (simp add: estimate_def r displayed_dollar_def)
  show ?thesis using 1 2 3 by blast
qed

theorem displayed_dollar_formula_witness:
  "estimate Historical 0.9 1000 sample_returns
     = Inr \<lparr>var_percent = - 0.032, var_dollar = - 32, curve = None\<rparr>
   \<and> (0::real) < 1000
   \<and> displayed_dollar \<lparr>var_percent = - 0.032, var_dollar = - 32, curve = None\<rparr> = 32
   \<and> (\<exists>r'. estimate Historical 0.9 (2 * 1000) sample_returns = Inr r'
          \<and> displayed_dollar r' = 2 * 32)"
proof -
  have e: "estimate Historical 0.9 1000 sample_returns
     = Inr \<lparr>var_percent = - 0.032, var_dollar = - 32, curve = None\<rparr>"
    by (simp add: estimate_sample)
  have p: "(0::real) < 1000" by simp
  have d: "displayed_dollar \<lparr>var_percent = - 0.032, var_dollar = - 32, curve = None\<rparr> = 32"
    by (simp add: displayed_dollar_def)
  from displayed_dollar_formula[OF e p]
  have "\<exists>r'. estimate Historical 0.9 (2 * 1000) sample_returns = Inr r'
          \<and> displayed_dollar r' = 2 * 32"
    unfolding d by blast
  with e p d show ?thesis by blast
qed

text \<open>Claim C4, as the code has it. For every price series the return series is the list
  of the entries of the consecutive pairs, in order, with the NaN entries removed and
  nothing else: the entry of the pair \<open>(p[i], p[i+1])\<close> is \<open>p[i+1] / p[i] - 1\<close> when
  \<open>p[i]\<close> is not zero (so pairs away from a zero price are unchanged, and a zero or
  negative \<open>p[i+1]\<close> gives an ordinary finite return), an infinity of the sign of
  \<open>p[i+1]\<close> when \<open>p[i]\<close> is zero and \<open>p[i+1]\<close> is not, and NaN, which is dropped,
  when both are zero. So the result never contains NaN but a non-positive price is not
  excluded, and unless two consecutive prices are both zero nothing but the leading row
  is dropped.\<close>

theorem build_returns_drops_only_NaN:
  "NaN \<notin> set (build_returns ps)
   \<and> build_returns ps
       = filter (\<lambda>x. x \<noteq> NaN)
           (map (\<lambda>i. if ps ! i \<noteq> 0 then Fin (ps ! Suc i / ps ! i - 1)
                     else if 0 < ps ! Suc i then PInf
                     else if ps ! Suc i < 0 then NInf else NaN)
              [0..<length ps - 1])
   \<and> ((\<forall>i. Suc i < length ps \<longrightarrow> \<not> (ps ! i = 0 \<and> ps ! Suc i = 0)) \<longrightarrow>
        length (build_returns ps) = length ps - 1
      \<and> (\<forall>i. Suc i < length ps \<longrightarrow>
            build_returns ps ! i =
              (if ps ! i \<noteq> 0 then Fin (ps ! Suc i / ps ! i - 1)
               else if 0 < ps ! Suc i then PInf else NInf)))"
proof -
  have 1: "NaN \<notin> set (build_returns ps)"
    by (simp add: build_returns_def dropna_def)
  have 2: "length (build_returns ps) = length ps - 1
      \<and> (\<forall>i. Suc i < length ps \<longrightarrow>
            build_returns ps ! i =
              (if ps ! i \<noteq> 0 then Fin (ps ! Suc i / ps ! i - 1)
               else if 0 < ps ! Suc i then PInf else NInf))"
    if nzp: "\<forall>i. Suc i < length ps \<longrightarrow> \<not> (ps ! i = 0 \<and> ps ! Suc i = 0)"
  proof -
    have "build_returns ps ! i =
              (if ps ! i \<noteq> 0 then Fin (ps ! Suc i / ps ! i - 1)
               else if 0 < ps ! Suc i then PInf else NInf)" if i: "Suc i < length ps" for i
    proof (cases "ps ! i = 0")
      case True
      then have "ps ! Suc i \<noteq> 0" using nzp i by blast
      then show ?thesis
        using build_returns_no_zero_pair(2)[OF nzp i] True
        by (simp add: fsub_one_fdiv_zero)
    next
      case False
      then show ?thesis
        using build_returns_no_zero_pair(2)[OF nzp i]
        by (simp add: fsub_one_fdiv_nonzero)
    qed
    then show ?thesis using build_returns_no_zero_pair(1)[OF nzp] by blast
  qed
  show ?thesis using 1 2 build_returns_map[of ps] by blast
qed

theorem build_returns_drops_only_NaN_witness:
  "NaN \<notin> set (build_returns [4, 0, - 2, 1])
   \<and> build_returns [4, 0, - 2, 1] = [Fin (- 1), NInf, Fin (- (3 / 2))]
   \<and> build_returns [1, 0, 0, 2] = [Fin (- 1), PInf]"
proof -
  let ?ps = "[4, 0, - 2, 1 :: real]"
  let ?qs = "[1, 0, 0, 2 :: real]"
  have h: "\<forall>i. Suc i < length ?ps \<longrightarrow> \<not> (?ps ! i = 0 \<and> ?ps ! Suc i = 0)"
    by (auto simp: less_Suc_eq numeral_eq_Suc)
  from build_returns_drops_only_NaN[of ?ps] h
  have n: "NaN \<notin> set (build_returns ?ps)"
    and l0: "length (build_returns ?ps) = length ?ps - 1"
    and e: "\<forall>i. Suc i < length ?ps \<longrightarrow>
            build_returns ?ps ! i =
              (if ?ps ! i \<noteq> 0 then Fin (?ps ! Suc i / ?ps ! i - 1)
               else if 0 < ?ps ! Suc i then PInf else NInf)"
    by blast+
  have l: "length (build_returns ?ps) = 3" using l0 by simp
  have "build_returns ?ps ! 0 = Fin (- 1)" using e[rule_format, of 0] by simp
  moreover have "build_returns ?ps ! 1 = NInf" using e[rule_format, of 1] by simp
  moreover have "build_returns ?ps ! 2 = Fin (- (3 / 2))" using e[rule_format, of 2] by simp
  ultimately have p: "build_returns ?ps = [Fin (- 1), NInf, Fin (- (3 / 2))]"
    using l by (auto simp: list_eq_iff_nth_eq less_Suc_eq numeral_eq_Suc)
  from build_returns_drops_only_NaN[of ?qs]
  have "build_returns ?qs
       = filter (\<lambda>x. x \<noteq> NaN)
           (map (\<lambda>i. if ?qs ! i \<noteq> 0 then Fin (?qs ! Suc i / ?qs ! i - 1)
                     else if 0 < ?qs ! Suc i then PInf
                     else if ?qs ! Suc i < 0 then NInf else NaN)
              [0..<length ?qs - 1])"
    by blast
  also have "\<dots> = [Fin (- 1), PInf]"
    by (simp add: upt_rec)
  finally have q: "build_returns ?qs = [Fin (- 1), PInf]" .
  from n p q show ?thesis by blast
qed

text \<open>The claim as the specification words it fails on this input.\<close>

theorem zero_price_counterexample:
  "build_returns [1, 0, 2] = [Fin (- 1), PInf]"
  by (simp add: build_returns_def dropna_def fdiv_def)

text \<open>Claim C5. For at least two prices, all positive, the return series has length
  \<open>n - 1\<close>, and its \<open>i\<close>-th entry is the return of the \<open>i\<close>-th consecutive pair, in
  order: \<open>(p[i+1] - p[i]) / p[i]\<close>, which is \<open>p[i+1] / p[i] - 1\<close>.\<close>

theorem build_returns_valid:
  assumes "2 \<le> length ps" and "\<forall>p \<in> set ps. 0 < p"
  shows "length (build_returns ps) = length ps - 1
     \<and> (\<forall>i. Suc i < length ps \<longrightarrow>
           build_returns ps ! i = Fin ((ps ! Suc i - ps ! i) / ps ! i)
         \<and> build_returns ps ! i = Fin (ps ! Suc i / ps ! i - 1))"
proof -
  have nz: "ps ! i \<noteq> 0" if "i < length ps" for i
    using assms(2) that nth_mem[of i ps] by fastforce
  have nzp: "\<forall>i. Suc i < length ps \<longrightarrow> \<not> (ps ! i = 0 \<and> ps ! Suc i = 0)"
    using nz by auto
  have "build_returns ps ! i = Fin (ps ! Suc i / ps ! i - 1)" if "Suc i < length ps" for i
    using build_returns_no_zero_pair(2)[OF nzp that] nz[of i] that
    by (simp add: fsub_one_fdiv_nonzero)
  moreover have "(ps ! Suc i - ps ! i) / ps ! i = ps ! Suc i / ps ! i - 1" if "Suc i < length ps" for i
    using nz[of i] that by (simp add: diff_divide_distrib)
  ultimately show ?thesis
    using build_returns_no_zero_pair(1)[OF nzp] by simp
qed

theorem build_returns_valid_witness:
  "2 \<le> length [100, 110, 99 :: real]
   \<and> build_returns [100, 110, 99] = [Fin (1 / 10), Fin (- (1 / 10))]"
proof -
  have a: "2 \<le> length [100, 110, 99 :: real]" by simp
  have b: "\<forall>p \<in> set [100, 110, 99 :: real]. 0 < p" by simp
  from build_returns_valid[OF a b]
  have "length (build_returns [100, 110, 99]) = 2
      \<and> build_returns [100, 110, 99] ! 0 = Fin (1 / 10)
      \<and> build_returns [100, 110, 99] ! 1 = Fin (- (1 / 10))"
    by simp
  then have "build_returns [100, 110, 99] = [Fin (1 / 10), Fin (- (1 / 10))]"
    by (auto simp: list_eq_iff_nth_eq less_Suc_eq numeral_2_eq_2)
  with a show ?thesis by blast
qed

text \<open>Claim C6. With fewer than ten returns the block ends with the not-enough-data
  failure and no result, whatever the method and the parameters; with ten or more this
  failure does not occur.\<close>

theorem insufficient_data:
  "(length rs < 10 \<longrightarrow> estimate m cl amt rs = Inl InsufficientData)
   \<and> (10 \<le> length rs \<longrightarrow> estimate m cl amt rs \<noteq> Inl InsufficientData)"
  by (auto simp: estimate_def compute_var_percent_def percentile_def Let_def split: sum.splits var_method.splits prod.splits)

theorem insufficient_data_witness:
  "length (replicate 9 (0::real)) < 10
   \<and> estimate VarianceCovariance 0.95 1000 (replicate 9 0) = Inl InsufficientData
   \<and> 10 \<le> length (replicate 10 (0::real))
   \<and> estimate VarianceCovariance 0.95 1000 (replicate 10 0) \<noteq> Inl InsufficientData"
  using insufficient_data[of "replicate 9 0" VarianceCovariance "0.95" 1000]
    insufficient_data[of "replicate 10 0" VarianceCovariance "0.95" 1000]
  by simp

text \<open>Claim C7, as the code has it. For ten or more returns that are all the same value
  \<open>c\<close>, the Variance-Covariance method returns a result (no error, and the count it
  divides by is not zero). In exact arithmetic the mean is \<open>c\<close>, the standard deviation
  \<open>0\<close> and \<open>var_percent\<close> is \<open>c\<close>. In double precision the same holds whenever the
  computed mean equals \<open>c\<close>: then the standard deviation is \<open>0\<close> and the result is
  \<open>c\<close>. But the summation rounds, and the computed mean can differ from \<open>c\<close>: for
  ten returns of \<open>0.01\<close> it is one unit in the last place (\<open>1 / 2 ^ 59\<close>) below, and
  the standard deviation is \<open>1 / 2 ^ 59\<close>, not \<open>0\<close>.\<close>

theorem identical_returns:
  assumes "10 \<le> length rs" and "\<forall>x \<in> set rs. x = c"
  shows "mean rs = c \<and> std rs = 0
     \<and> estimate VarianceCovariance cl amt rs
         = Inr \<lparr>var_percent = c, var_dollar = c * amt, curve = Some (c, 0)\<rparr>
     \<and> (rnd c = c \<and> mean_f64 rs = c \<longrightarrow> std_f64 rs = 0 \<and> var_percent_f64 z rs = c)
     \<and> mean_f64 (replicate 10 cent) = cent - 1 / 2 ^ 59
     \<and> std_f64 (replicate 10 cent) = 1 / 2 ^ 59"
proof -
  have "std_f64 rs = 0 \<and> var_percent_f64 z rs = c" if "rnd c = c \<and> mean_f64 rs = c"
    using that std_f64_identical[OF assms(2)] var_percent_f64_identical[OF assms(2)] by blast
  then show ?thesis
    using identical_returns_exact[OF assms, of cl amt] mean_f64_cent std_f64_cent by blast
qed

theorem identical_returns_witness:
  "10 \<le> length (replicate 10 (1::real)) \<and> rnd 1 = 1 \<and> mean_f64 (replicate 10 1) = 1
   \<and> std_f64 (replicate 10 1) = 0
   \<and> var_percent_f64 (- 1.6448536269514722) (replicate 10 1) = 1
   \<and> estimate VarianceCovariance 0.95 1000 (replicate 10 1)
       = Inr \<lparr>var_percent = 1, var_dollar = 1000, curve = Some (1, 0)\<rparr>"
proof -
  have a: "10 \<le> length (replicate 10 (1::real))" by simp
  have b: "\<forall>x \<in> set (replicate 10 (1::real)). x = 1" by simp
  from identical_returns[OF a b, of "0.95" 1000 "- 1.6448536269514722"] rnd_one mean_f64_ones a
  show ?thesis by simp
qed

text \<open>The claim as the specification words it (standard deviation \<open>0\<close>, result exactly
  the mean) fails in double precision on ten returns of \<open>0.01\<close>.\<close>

theorem identical_returns_counterexample:
  "rnd (1 / 100) = cent \<and> mean_f64 (replicate 10 cent) \<noteq> cent \<and> std_f64 (replicate 10 cent) \<noteq> 0"
  by (simp add: rnd_one_hundredth mean_f64_cent std_f64_cent)

text \<open>Claim C8, as the code has it. The block checks neither parameter itself. For ten or
  more returns, every investment amount (also zero or negative) is multiplied into
  \<open>var_dollar\<close>; the Variance-Covariance method ends with a result for every confidence
  level; the Historical method ends with a result for every confidence level in
  \<open>[0, 1]\<close>, both ends included, and fails only outside \<open>[0, 1]\<close>, with the range error
  of the percentile routine. The sidebar's sliders are what keeps the values in range:
  they give a confidence level strictly between 0 and 1 and a positive investment.\<close>

theorem validation_is_upstream:
  assumes "10 \<le> length rs"
  shows "(\<exists>r. estimate VarianceCovariance cl amt rs = Inr r \<and> var_dollar r = var_percent r * amt)
     \<and> (0 \<le> cl \<and> cl \<le> 1 \<longrightarrow>
          (\<exists>r. estimate Historical cl amt rs = Inr r \<and> var_dollar r = var_percent r * amt))
     \<and> (cl < 0 \<or> 1 < cl \<longrightarrow> estimate Historical cl amt rs = Inl ValueError)
     \<and> (\<forall>k c. slider_confidence k = Some c \<longrightarrow> 0 < c \<and> c < 1)
     \<and> (\<forall>k a. slider_investment k = Some a \<longrightarrow> 0 < a)"
proof -
  have 1: "\<exists>r. estimate VarianceCovariance cl amt rs = Inr r \<and> var_dollar r = var_percent r * amt"
    using assms by (simp add: estimate_def compute_var_percent_def Let_def)
  have 2: "\<exists>r. estimate Historical cl amt rs = Inr r \<and> var_dollar r = var_percent r * amt"
    if "0 \<le> cl \<and> cl \<le> 1"
    using assms that by (simp add: estimate_def compute_var_percent_def percentile_def Let_def)
  have 3: "estimate Historical cl amt rs = Inl ValueError" if "cl < 0 \<or> 1 < cl"
    using assms that by (auto simp: estimate_def compute_var_percent_def percentile_def)
  have 4: "0 < c \<and> c < 1" if "slider_confidence k = Some c" for k c
    using that by (auto simp: slider_confidence_def split: if_splits)
  have 5: "0 < a" if "slider_investment k = Some a" for k a
    using that by (auto simp: slider_investment_def split: if_splits)
  show ?thesis using 1 2 3 4 5 by blast
qed

theorem validation_is_upstream_witness:
  "10 \<le> length sample_returns
   \<and> (\<exists>r. estimate VarianceCovariance 0.95 (- 1000) sample_returns = Inr r
          \<and> var_dollar r = var_percent r * (- 1000))
   \<and> estimate Historical 1.5 1000 sample_returns = Inl ValueError
   \<and> slider_confidence 95 = Some 0.95 \<and> slider_investment 100000 = Some 100000"
proof -
  have a: "10 \<le> length sample_returns" by (simp add: sample_returns_def)
  have s: "slider_confidence 95 = Some 0.95" "slider_investment 100000 = Some 100000"
    by (simp_all add: slider_confidence_def slider_investment_def)
  have "\<exists>r. estimate VarianceCovariance 0.95 (- 1000) sample_returns = Inr r
          \<and> var_dollar r = var_percent r * (- 1000)"
    using validation_is_upstream[OF a, of "0.95" "- 1000"] by blast
  moreover have "estimate Historical 1.5 1000 sample_returns = Inl ValueError"
    using validation_is_upstream[OF a, of "1.5" 1000] by simp
  ultimately show ?thesis using a s by blast
qed

text \<open>The claim as the specification words it fails on this input.\<close>

theorem no_revalidation_counterexample:
  "estimate Historical 0.9 (- 1000) sample_returns
     = Inr \<lparr>var_percent = - 0.032, var_dollar = 32, curve = None\<rparr>
   \<and> estimate Historical 1 1000 sample_returns
     = Inr \<lparr>var_percent = - 0.05, var_dollar = - 50, curve = None\<rparr>"
proof -
  have "compute_var_percent Historical 1 sample_returns = Inr (- 0.05, None)"
    by (simp add: compute_var_percent_def percentile_sample_0)
  then have "estimate Historical 1 1000 sample_returns
     = Inr \<lparr>var_percent = - 0.05, var_dollar = - 50, curve = None\<rparr>"
    by (simp add: estimate_def sample_returns_def)
  then show ?thesis by (simp add: estimate_sample)
qed

text \<open>Claim C10. For a non-empty return series the standard deviation is the population
  estimator \<open>sqrt ((1 / n) * (\<Sum>i. (r i - mu)\<^sup>2))\<close>, this is the value the
  Variance-Covariance branch uses, and for two or more returns that are not all equal it
  differs from the Bessel-corrected estimator with divisor \<open>n - 1\<close>.\<close>

theorem std_is_population:
  assumes "rs \<noteq> []"
  shows "std rs = population_sd rs
     \<and> compute_var_percent VarianceCovariance cl rs
         = Inr (mean rs + norm_ppf (1 - cl) * population_sd rs, Some (mean rs, population_sd rs))
     \<and> (2 \<le> length rs \<and> std rs \<noteq> 0 \<longrightarrow> std rs \<noteq> bessel_sd rs)"
proof -
  let ?S = "\<Sum>r\<leftarrow>rs. (r - mean rs)\<^sup>2"
  have 1: "std rs = population_sd rs" by (rule std_population)
  have 2: "compute_var_percent VarianceCovariance cl rs
         = Inr (mean rs + norm_ppf (1 - cl) * population_sd rs, Some (mean rs, population_sd rs))"
    by (simp add: compute_var_percent_def 1 Let_def)
  have 3: "std rs \<noteq> bessel_sd rs" if n: "2 \<le> length rs" and nz: "std rs \<noteq> 0"
  proof
    assume "std rs = bessel_sd rs"
    then have "1 / real (length rs) * ?S = 1 / (real (length rs) - 1) * ?S"
      by (simp add: 1 population_sd_def bessel_sd_def)
    moreover have "?S \<noteq> 0"
      using nz by (auto simp: 1 population_sd_def)
    ultimately have "1 / real (length rs) = 1 / (real (length rs) - 1)"
      by simp
    then show False using n by (simp add: field_simps)
  qed
  show ?thesis using 1 2 3 by blast
qed

theorem std_is_population_witness:
  "[0, 2 :: real] \<noteq> [] \<and> std [0, 2] = 1 \<and> population_sd [0, 2] = 1 \<and> bessel_sd [0, 2] = sqrt 2"
proof -
  have a: "[0, 2 :: real] \<noteq> []" by simp
  have p: "population_sd [0, 2] = 1" by (simp add: population_sd_def mean_def)
  have b: "bessel_sd [0, 2] = sqrt 2" by (simp add: bessel_sd_def mean_def)
  from std_is_population[OF a, of "0.95"] p have "std [0, 2] = 1" by simp
  with a p b show ?thesis by blast
qed

end
